theory Spec2Isabelle
  imports Complex_Main
begin

section \<open>Shared vocabulary of the sender (client.py) and the receiver (server.py)\<close>

text \<open>
  Byte strings are character lists, so that \<open>b'ACK'\<close> is \<open>''ACK''\<close>. Python floats are
  idealised as reals: \<open>/\<close> is exact division, and the \<open>ZeroDivisionError\<close> of a zero
  divisor is written out. Integer counters are \<open>int\<close>; the read offset \<open>pos\<close> is an
  index into the buffer and is a \<open>nat\<close>.
\<close>

type_synonym bytes = string

datatype error =
    AttributeError
  | ZeroDivisionError
  | ValueError
  | SocketTimeout
  | ConnectionError

text \<open>What a call of \<open>recv\<close> and of \<open>sendall\<close> does, as the peer and the network decide.\<close>

datatype recv_result = Received bytes | RecvRaises error

datatype send_result = SendOk | SendRaises error

record sock =
  nodelay :: bool
  quickack :: bool
  connected :: bool
  close_calls :: nat

definition new_socket :: sock where
  "new_socket = \<lparr>nodelay = False, quickack = False, connected = False, close_calls = 0\<rparr>"

definition close_sock :: "sock \<Rightarrow> sock" where
  "close_sock s = s\<lparr>connected := False, close_calls := Suc (close_calls s)\<rparr>"

text \<open>
  The platform either defines \<open>socket.TCP_QUICKACK\<close> or does not; reading the attribute
  on a platform without it raises \<open>AttributeError\<close> before \<open>setsockopt\<close> is called.
\<close>

definition setsockopt_quickack :: "bool \<Rightarrow> sock \<Rightarrow> error + sock" where
  "setsockopt_quickack has_quickack s =
     (if has_quickack then Inr (s\<lparr>quickack := True\<rparr>) else Inl AttributeError)"

definition py_truediv :: "real \<Rightarrow> real \<Rightarrow> error + real" where
  "py_truediv a b = (if b = 0 then Inl ZeroDivisionError else Inr (a / b))"

text \<open>\<open>time.sleep\<close> refuses a negative length.\<close>

definition sleep :: "real \<Rightarrow> error + unit" where
  "sleep secs = (if secs < 0 then Inl ValueError else Inr ())"

section \<open>The sender: client.py\<close>

record tx_result =
  throughput :: real
  goodput :: real
  loss :: real
  bytes :: int
  packets :: int
  acks :: int
  time :: real

datatype client_line =
    Quickack_unsupported
  | Connected_banner
  | Transmission_issue error
  | Transfer_finished tx_result

text \<open>\<open>set_client_options\<close>: the \<open>try\<close> catches \<open>AttributeError\<close> only.\<close>

definition set_client_options ::
  "bool \<Rightarrow> sock \<Rightarrow> bool \<Rightarrow> bool \<Rightarrow> error + (sock \<times> client_line list)" where
  "set_client_options has_quickack s use_nagle use_delayed_ack =
     (let s1 = (if \<not> use_nagle then s\<lparr>nodelay := True\<rparr> else s) in
      if \<not> use_delayed_ack then
        (case setsockopt_quickack has_quickack s1 of
           Inr s2 \<Rightarrow> Inr (s2, [])
         | Inl AttributeError \<Rightarrow> Inr (s1, [Quickack_unsupported])
         | Inl e \<Rightarrow> Inl e)
      else Inr (s1, []))"

definition chunk_size :: nat where
  "chunk_size = 40"

definition sleep_interval :: "int \<Rightarrow> error + real" where
  "sleep_interval rate =
     (case py_truediv (real_of_int rate) (real chunk_size) of
        Inl e \<Rightarrow> Inl e
      | Inr q \<Rightarrow> py_truediv 1 q)"

text \<open>
  The local variables of \<open>transmit_data\<close>; \<open>wire\<close> is a ghost field, the segments
  that \<open>sendall\<close> has written, in order.
\<close>

record tx_state =
  total_bytes :: int
  packet_count :: int
  ack_count :: int
  lost_count :: int
  pos :: nat
  wire :: "bytes list"

definition tx_init :: tx_state where
  "tx_init = \<lparr>total_bytes = 0, packet_count = 0, ack_count = 0, lost_count = 0,
              pos = 0, wire = []\<rparr>"

text \<open>One pass of the loop body meets one \<open>sendall\<close> and, when that returns, one \<open>recv\<close>.\<close>

record tx_event =
  send_res :: send_result
  recv_res :: recv_result

text \<open>The slice \<open>data_buffer[pos: pos + chunk_size]\<close>: Python cuts it at the buffer's end.\<close>

definition segment_at :: "bytes \<Rightarrow> nat \<Rightarrow> bytes" where
  "segment_at data_buffer p = take chunk_size (drop p data_buffer)"

text \<open>
  The inner \<open>try\<close>: \<open>recv(3)\<close>, the comparison with \<open>b'ACK'\<close>, and the handler of
  \<open>socket.timeout\<close>. Any other exception leaves the inner \<open>try\<close>.
\<close>

definition wait_ack :: "recv_result \<Rightarrow> tx_state \<Rightarrow> error + tx_state" where
  "wait_ack r s =
     (case r of
        Received response \<Rightarrow>
          Inr (if response = ''ACK'' then s\<lparr>ack_count := ack_count s + 1\<rparr> else s)
      | RecvRaises SocketTimeout \<Rightarrow> Inr (s\<lparr>lost_count := lost_count s + 1\<rparr>)
      | RecvRaises e \<Rightarrow> Inl e)"

text \<open>How a pass of a loop ends: it goes on, it leaves the loop, or it raises.\<close>

datatype 'a flow = Continue 'a | Break 'a | Raise error 'a

text \<open>
  The body of the \<open>while\<close> loop, lines 42 to 58. \<open>pos + chunk_size\<close> is reduced modulo
  the buffer's length, which raises on an empty buffer (the \<open>break\<close> above it makes that
  branch unreachable, see \<open>segment_at_nonempty\<close>).
\<close>

definition transmit_pass :: "bytes \<Rightarrow> real \<Rightarrow> tx_event \<Rightarrow> tx_state \<Rightarrow> tx_state flow" where
  "transmit_pass data_buffer si ev s =
     (let segment = segment_at data_buffer (pos s) in
      if segment = [] then Break s
      else
        (case send_res ev of
           SendRaises e \<Rightarrow> Raise e s
         | SendOk \<Rightarrow>
             (let s1 = s\<lparr>wire := wire s @ [segment],
                         packet_count := packet_count s + 1,
                         total_bytes := total_bytes s + int (length segment)\<rparr>
              in if length data_buffer = 0 then Raise ZeroDivisionError s1
                 else
                   (let s2 = s1\<lparr>pos := (pos s + chunk_size) mod length data_buffer\<rparr>
                    in case wait_ack (recv_res ev) s2 of
                         Inl e \<Rightarrow> Raise e s2
                       | Inr s3 \<Rightarrow>
                           (case sleep si of
                              Inl e \<Rightarrow> Raise e s3
                            | Inr _ \<Rightarrow> Continue s3)))))"

text \<open>
  The \<open>while\<close> loop. The event list has one entry for each pass whose test
  \<open>time.time() < finish\<close> succeeded; the test fails after the last entry. The result is
  the exception that left the loop, if any, and the local variables at that moment.
\<close>

fun transmit_loop ::
  "bytes \<Rightarrow> real \<Rightarrow> tx_event list \<Rightarrow> tx_state \<Rightarrow> error option \<times> tx_state" where
  "transmit_loop data_buffer si [] s = (None, s)"
| "transmit_loop data_buffer si (ev # evs) s =
     (case transmit_pass data_buffer si ev s of
        Continue s' \<Rightarrow> transmit_loop data_buffer si evs s'
      | Break s' \<Rightarrow> (None, s')
      | Raise e s' \<Rightarrow> (Some e, s'))"

text \<open>The \<open>finally\<close> block: the metrics, from the counters and the measured time.\<close>

definition finalize :: "tx_state \<Rightarrow> real \<Rightarrow> tx_result" where
  "finalize s elapsed =
     \<lparr>throughput = (if elapsed > 0 then real_of_int (total_bytes s) / elapsed else 0),
      goodput = (if elapsed > 0
                 then real_of_int (ack_count s * int chunk_size) / elapsed else 0),
      loss = (if packet_count s > 0
              then real_of_int (lost_count s) / real_of_int (packet_count s) else 0),
      bytes = total_bytes s,
      packets = packet_count s,
      acks = ack_count s,
      time = elapsed\<rparr>"

text \<open>
  What the sender meets outside its arguments: whether the platform has
  \<open>TCP_QUICKACK\<close>, whether \<open>connect\<close> succeeds, the passes of the loop, and the two
  clock readings \<open>start\<close> and the one taken in the \<open>finally\<close> block.
\<close>

record client_env =
  quickack_defined :: bool
  connect_ok :: bool
  passes :: "tx_event list"
  t_start :: real
  t_end :: real

record tx_outcome =
  returned :: "error + tx_result"
  client_sock :: sock
  printed :: "client_line list"
  written :: "bytes list"

definition transmit_data ::
  "client_env \<Rightarrow> bytes \<Rightarrow> int \<Rightarrow> bool \<Rightarrow> bool \<Rightarrow> tx_outcome" where
  "transmit_data env data_buffer rate use_nagle use_delayed_ack =
     (case set_client_options (quickack_defined env) new_socket use_nagle use_delayed_ack of
        Inl e \<Rightarrow>
          \<lparr>returned = Inl e, client_sock = new_socket, printed = [], written = []\<rparr>
      | Inr (sk, warn) \<Rightarrow>
          if \<not> connect_ok env then
            \<lparr>returned = Inl ConnectionError, client_sock = sk, printed = warn, written = []\<rparr>
          else
            (let sk1 = sk\<lparr>connected := True\<rparr>;
                 out1 = warn @ [Connected_banner]
             in case sleep_interval rate of
                  Inl e \<Rightarrow>
                    \<lparr>returned = Inl e, client_sock = sk1, printed = out1, written = []\<rparr>
                | Inr si \<Rightarrow>
                    (let (exc, s) = transmit_loop data_buffer si (passes env) tx_init;
                         out2 = (case exc of
                                   None \<Rightarrow> out1
                                 | Some e \<Rightarrow> out1 @ [Transmission_issue e]);
                         res = finalize s (t_end env - t_start env)
                     in \<lparr>returned = Inr res,
                         client_sock = close_sock sk1,
                         printed = out2 @ [Transfer_finished res],
                         written = wire s\<rparr>)))"

section \<open>The receiver: server.py\<close>

record rx_stats =
  elapsed_time :: real
  total_received :: int
  packets_received :: int
  data_rate :: real
  largest_packet :: int

datatype server_line =
    Quickack_not_supported
  | Server_started
  | Incoming_connection
  | Session_ended rx_stats
  | Error_occurred error

definition adjust_socket_options ::
  "bool \<Rightarrow> sock \<Rightarrow> bool \<Rightarrow> bool \<Rightarrow> error + (sock \<times> server_line list)" where
  "adjust_socket_options has_quickack s use_nagle use_delayed_ack =
     (let s1 = (if \<not> use_nagle then s\<lparr>nodelay := True\<rparr> else s) in
      if \<not> use_delayed_ack then
        (case setsockopt_quickack has_quickack s1 of
           Inr s2 \<Rightarrow> Inr (s2, [])
         | Inl AttributeError \<Rightarrow> Inr (s1, [Quickack_not_supported])
         | Inl e \<Rightarrow> Inl e)
      else Inr (s1, []))"

text \<open>The calls made on the accepted connection, in order (a ghost trace).\<close>

datatype io_call = Recv recv_result | SendAll bytes send_result

record rx_state =
  total_data :: int
  packet_num :: int
  max_size :: int
  calls :: "io_call list"

definition rx_init :: rx_state where
  "rx_init = \<lparr>total_data = 0, packet_num = 0, max_size = 0, calls = []\<rparr>"

text \<open>One pass of the \<open>for\<close> loop meets one \<open>recv(4096)\<close> and, after a non-empty read, one \<open>sendall\<close>.\<close>

record rx_event =
  read_res :: recv_result
  ack_res :: send_result

text \<open>
  One pass of \<open>for packet in iter(lambda: client_conn.recv(4096), b'')\<close>: the read, the
  comparison with the sentinel \<open>b''\<close>, and the body, lines 21 to 25.
\<close>

definition receive_pass :: "rx_event \<Rightarrow> rx_state \<Rightarrow> rx_state flow" where
  "receive_pass ev s =
     (let s0 = s\<lparr>calls := calls s @ [Recv (read_res ev)]\<rparr> in
      case read_res ev of
        RecvRaises e \<Rightarrow> Raise e s0
      | Received packet \<Rightarrow>
          if packet = [] then Break s0
          else
            (let packet_len = int (length packet);
                 s1 = s0\<lparr>total_data := total_data s + packet_len,
                          packet_num := packet_num s + 1,
                          max_size := (if packet_len > max_size s then packet_len
                                       else max_size s),
                          calls := calls s0 @ [SendAll ''ACK'' (ack_res ev)]\<rparr>
             in case ack_res ev of
                  SendRaises e \<Rightarrow> Raise e s1
                | SendOk \<Rightarrow> Continue s1))"

text \<open>
  The loop. The event list is what the connection delivers; when it is used up and the
  stream has neither ended nor failed, \<open>recv\<close> blocks and the loop does not return: the
  value is \<open>None\<close>.
\<close>

fun process_loop :: "rx_event list \<Rightarrow> rx_state \<Rightarrow> (error option \<times> rx_state) option" where
  "process_loop [] s = None"
| "process_loop (ev # evs) s =
     (case receive_pass ev s of
        Continue s' \<Rightarrow> process_loop evs s'
      | Break s' \<Rightarrow> Some (None, s')
      | Raise e s' \<Rightarrow> Some (Some e, s'))"

text \<open>
  \<open>process_client\<close>: the statistics are computed and printed after the loop, so an
  exception that leaves the loop leaves the function before them.
\<close>

record session =
  raised :: "error option"
  report :: "server_line list"
  trace :: "io_call list"

definition rx_report :: "rx_state \<Rightarrow> real \<Rightarrow> rx_stats" where
  "rx_report s elapsed =
     \<lparr>elapsed_time = elapsed,
      total_received = total_data s,
      packets_received = packet_num s,
      data_rate = (if elapsed > 0 then real_of_int (total_data s) / elapsed else 0),
      largest_packet = max_size s\<rparr>"

definition process_client :: "rx_event list \<Rightarrow> real \<Rightarrow> real \<Rightarrow> session option" where
  "process_client evs session_start session_stop =
     (case process_loop evs rx_init of
        None \<Rightarrow> None
      | Some (Some e, s) \<Rightarrow> Some \<lparr>raised = Some e, report = [], trace = calls s\<rparr>
      | Some (None, s) \<Rightarrow>
          Some \<lparr>raised = None,
                report = [Session_ended (rx_report s (session_stop - session_start))],
                trace = calls s\<rparr>)"

record server_env =
  srv_quickack_defined :: bool
  bind_ok :: bool
  reads :: "rx_event list"
  session_start :: real
  session_stop :: real

record srv_outcome =
  srv_raised :: "error option"
  srv_socket :: sock
  accepted :: "sock option"
  srv_printed :: "server_line list"
  srv_trace :: "io_call list"

text \<open>\<open>launch_server\<close>; \<open>None\<close> when the session never returns.\<close>

definition launch_server :: "server_env \<Rightarrow> bool \<Rightarrow> bool \<Rightarrow> srv_outcome option" where
  "launch_server env use_nagle use_delayed_ack =
     (case adjust_socket_options (srv_quickack_defined env) new_socket use_nagle use_delayed_ack of
        Inl e \<Rightarrow>
          Some \<lparr>srv_raised = Some e, srv_socket = new_socket, accepted = None,
                srv_printed = [], srv_trace = []\<rparr>
      | Inr (sk, warn) \<Rightarrow>
          if \<not> bind_ok env then
            Some \<lparr>srv_raised = Some ConnectionError, srv_socket = sk, accepted = None,
                  srv_printed = warn, srv_trace = []\<rparr>
          else
            (let out1 = warn @ [Server_started, Incoming_connection];
                 conn = new_socket\<lparr>connected := True\<rparr>
             in case process_client (reads env) (session_start env) (session_stop env) of
                  None \<Rightarrow> None
                | Some ses \<Rightarrow>
                    Some \<lparr>srv_raised = None,
                          srv_socket = close_sock sk,
                          accepted = Some (close_sock conn),
                          srv_printed = out1 @ report ses @
                            (case raised ses of
                               None \<Rightarrow> []
                             | Some ex \<Rightarrow> [Error_occurred ex]),
                          srv_trace = trace ses\<rparr>))"

section \<open>Predicates on runs\<close>

fun flow_state :: "'a flow \<Rightarrow> 'a" where
  "flow_state (Continue s) = s"
| "flow_state (Break s) = s"
| "flow_state (Raise e s) = s"

text \<open>No more acknowledged and lost chunks than sent ones, and none of them negative.\<close>

definition accounted :: "tx_state \<Rightarrow> bool" where
  "accounted s = (0 \<le> ack_count s \<and> 0 \<le> lost_count s
                  \<and> ack_count s + lost_count s \<le> packet_count s)"

definition balanced :: "tx_state \<Rightarrow> bool" where
  "balanced s = (packet_count s = ack_count s + lost_count s)"

text \<open>A pass whose wait ends with the token \<open>b'ACK'\<close> or with \<open>socket.timeout\<close>.\<close>

definition answered :: "tx_event \<Rightarrow> bool" where
  "answered ev = (recv_res ev = Received ''ACK'' \<or> recv_res ev = RecvRaises SocketTimeout)"

text \<open>\<open>n\<close> passes in which the write succeeds and the token arrives.\<close>

definition all_acked :: "nat \<Rightarrow> tx_event list" where
  "all_acked n = replicate n \<lparr>send_res = SendOk, recv_res = Received ''ACK''\<rparr>"

fun is_summary :: "client_line \<Rightarrow> bool" where
  "is_summary (Transfer_finished r) = True"
| "is_summary l = False"

fun is_report :: "server_line \<Rightarrow> bool" where
  "is_report (Session_ended st) = True"
| "is_report l = False"

text \<open>A pass of the receiver that reads a non-empty packet and writes its token.\<close>

definition chunk_ok :: "rx_event \<Rightarrow> bool" where
  "chunk_ok ev = (case read_res ev of
                    Received packet \<Rightarrow> packet \<noteq> [] \<and> ack_res ev = SendOk
                  | RecvRaises e \<Rightarrow> False)"

text \<open>
  The traces in which every non-empty read is followed at once by a write of \<open>b'ACK'\<close>,
  and in which an empty read, a failed read and a failed write are the last call.
\<close>

fun alternating :: "io_call list \<Rightarrow> bool" where
  "alternating [] = True"
| "alternating [Recv (RecvRaises e)] = True"
| "alternating [Recv (Received p)] = (p = [])"
| "alternating (Recv (Received p) # SendAll a SendOk # rest) =
     (p \<noteq> [] \<and> a = ''ACK'' \<and> alternating rest)"
| "alternating [Recv (Received p), SendAll a (SendRaises e)] = (p \<noteq> [] \<and> a = ''ACK'')"
| "alternating tr = False"

text \<open>The byte and packet counters agree with what was written.\<close>

definition tallied :: "tx_state \<Rightarrow> bool" where
  "tallied s = (total_bytes s = int (sum_list (map length (wire s)))
                \<and> packet_count s = int (length (wire s)))"

fun read_bytes :: "io_call list \<Rightarrow> int" where
  "read_bytes [] = 0"
| "read_bytes (Recv (Received p) # tr) = int (length p) + read_bytes tr"
| "read_bytes (c # tr) = read_bytes tr"

text \<open>A buffer of 4096 bytes whose byte at offset \<open>i\<close> is \<open>i mod 256\<close>.\<close>

definition sample_buffer :: bytes where
  "sample_buffer = map (\<lambda>i. char_of (i mod 256)) [0..<4096]"

section \<open>Socket options\<close>

lemma set_client_options_returns:
  "\<exists>sk w. set_client_options h s n d = Inr (sk, w) \<and> connected sk = connected s
      \<and> close_calls sk = close_calls s \<and> (w = [] \<or> w = [Quickack_unsupported])"
  by (simp add: set_client_options_def setsockopt_quickack_def Let_def)

lemma adjust_socket_options_returns:
  "\<exists>sk w. adjust_socket_options h s n d = Inr (sk, w) \<and> connected sk = connected s
      \<and> close_calls sk = close_calls s \<and> (w = [] \<or> w = [Quickack_not_supported])"
  by (simp add: adjust_socket_options_def setsockopt_quickack_def Let_def)

section \<open>The pacing interval\<close>


lemma sleep_interval_nonzero:
  "rate \<noteq> 0 \<Longrightarrow> sleep_interval rate = Inr (real chunk_size / real_of_int rate)"
  by (simp add: sleep_interval_def py_truediv_def chunk_size_def)


section \<open>The sender as a whole\<close>

lemma transmit_data_runs:
  assumes "connect_ok env" and "sleep_interval rate = Inr si"
    and "transmit_loop buf si (passes env) tx_init = (exc, s)"
    and "set_client_options (quickack_defined env) new_socket n d = Inr (sk, w)"
  shows "transmit_data env buf rate n d =
     \<lparr>returned = Inr (finalize s (t_end env - t_start env)),
      client_sock = close_sock (sk\<lparr>connected := True\<rparr>),
      printed = (case exc of None \<Rightarrow> w @ [Connected_banner]
                 | Some e \<Rightarrow> (w @ [Connected_banner]) @ [Transmission_issue e])
                @ [Transfer_finished (finalize s (t_end env - t_start env))],
      written = wire s\<rparr>"
  using assms by (simp add: transmit_data_def Let_def)

lemma transmit_data_returned:
  assumes "returned (transmit_data env buf rate n d) = Inr r"
  shows "connect_ok env \<and> (\<exists>si. sleep_interval rate = Inr si
      \<and> r = finalize (snd (transmit_loop buf si (passes env) tx_init)) (t_end env - t_start env))"
proof -
  obtain sk w where o: "set_client_options (quickack_defined env) new_socket n d = Inr (sk, w)"
    using set_client_options_returns by blast
  have c: "connect_ok env"
    using assms o by (auto simp: transmit_data_def split: if_splits)
  obtain si where si: "sleep_interval rate = Inr si"
    using assms o c by (cases "sleep_interval rate") (auto simp: transmit_data_def Let_def)
  obtain exc s where l: "transmit_loop buf si (passes env) tx_init = (exc, s)"
    by (cases "transmit_loop buf si (passes env) tx_init")
  have "r = finalize s (t_end env - t_start env)"
    using assms transmit_data_runs [OF c si l o] by simp
  with c si l show ?thesis by simp
qed

section \<open>Invariants of the send loop\<close>

lemma segment_at_nonempty: "segment_at buf p \<noteq> [] \<Longrightarrow> length buf \<noteq> 0"
  by (auto simp: segment_at_def)

lemma transmit_pass_accounted:
  "accounted s \<Longrightarrow> accounted (flow_state (transmit_pass buf si ev s))"
  by (auto simp: transmit_pass_def Let_def accounted_def wait_ack_def
      split: send_result.splits recv_result.splits error.splits sum.splits if_splits)

lemma transmit_loop_accounted:
  "accounted s \<Longrightarrow> accounted (snd (transmit_loop buf si evs s))"
proof (induction evs arbitrary: s)
  case Nil
  then show ?case by simp
next
  case (Cons ev evs)
  from Cons.prems have "accounted (flow_state (transmit_pass buf si ev s))"
    by (rule transmit_pass_accounted)
  with Cons.IH show ?case
    by (cases "transmit_pass buf si ev s") simp_all
qed

lemma transmit_pass_balanced:
  "balanced s \<Longrightarrow> answered ev \<Longrightarrow> balanced (flow_state (transmit_pass buf si ev s))"
  by (auto simp: transmit_pass_def Let_def balanced_def answered_def wait_ack_def
      segment_at_def split: send_result.splits sum.splits if_splits)

lemma transmit_loop_balanced:
  "balanced s \<Longrightarrow> \<forall>ev\<in>set evs. answered ev \<Longrightarrow> balanced (snd (transmit_loop buf si evs s))"
proof (induction evs arbitrary: s)
  case Nil
  then show ?case by simp
next
  case (Cons ev evs)
  from Cons.prems have "balanced (flow_state (transmit_pass buf si ev s))"
    by (simp add: transmit_pass_balanced)
  with Cons.IH Cons.prems(2) show ?case
    by (cases "transmit_pass buf si ev s") simp_all
qed

lemma transmit_pass_tallied:
  "tallied s \<Longrightarrow> tallied (flow_state (transmit_pass buf si ev s))"
  by (auto simp: transmit_pass_def Let_def tallied_def wait_ack_def
      split: send_result.splits recv_result.splits error.splits sum.splits if_splits)

lemma transmit_loop_tallied:
  "tallied s \<Longrightarrow> tallied (snd (transmit_loop buf si evs s))"
proof (induction evs arbitrary: s)
  case Nil
  then show ?case by simp
next
  case (Cons ev evs)
  from Cons.prems have "tallied (flow_state (transmit_pass buf si ev s))"
    by (rule transmit_pass_tallied)
  with Cons.IH show ?case
    by (cases "transmit_pass buf si ev s") simp_all
qed

lemma tx_init_invariants: "accounted tx_init" "balanced tx_init" "tallied tx_init"
  by (simp_all add: tx_init_def accounted_def balanced_def tallied_def)

lemma transmit_pass_no_timeout:
  "send_res ev \<noteq> SendRaises SocketTimeout \<Longrightarrow> transmit_pass buf si ev s \<noteq> Raise SocketTimeout s'"
  by (auto simp: transmit_pass_def Let_def wait_ack_def sleep_def
      split: send_result.splits recv_result.splits error.splits sum.splits if_splits)

lemma transmit_loop_no_timeout:
  "\<forall>ev\<in>set evs. send_res ev \<noteq> SendRaises SocketTimeout \<Longrightarrow>
     fst (transmit_loop buf si evs s) \<noteq> Some SocketTimeout"
proof (induction evs arbitrary: s)
  case Nil
  then show ?case by simp
next
  case (Cons ev evs)
  then show ?case
    using transmit_pass_no_timeout [of ev buf si s]
    by (cases "transmit_pass buf si ev s") auto
qed

lemma transmit_pass_timeout:
  assumes "segment_at buf (pos s) \<noteq> []" and "0 \<le> si"
    and "send_res ev = SendOk" and "recv_res ev = RecvRaises SocketTimeout"
  shows "transmit_pass buf si ev s =
     Continue (s\<lparr>wire := wire s @ [segment_at buf (pos s)],
                 packet_count := packet_count s + 1,
                 total_bytes := total_bytes s + int (length (segment_at buf (pos s))),
                 pos := (pos s + chunk_size) mod length buf,
                 lost_count := lost_count s + 1\<rparr>)"
  using assms segment_at_nonempty [OF assms(1)]
  by (simp add: transmit_pass_def Let_def wait_ack_def sleep_def)

lemma transmit_pass_acked:
  assumes "segment_at buf (pos s) \<noteq> []" and "0 \<le> si"
  shows "transmit_pass buf si \<lparr>send_res = SendOk, recv_res = Received ''ACK''\<rparr> s =
     Continue (s\<lparr>wire := wire s @ [segment_at buf (pos s)],
                 packet_count := packet_count s + 1,
                 total_bytes := total_bytes s + int (length (segment_at buf (pos s))),
                 pos := (pos s + chunk_size) mod length buf,
                 ack_count := ack_count s + 1\<rparr>)"
  using assms segment_at_nonempty [OF assms(1)]
  by (simp add: transmit_pass_def Let_def wait_ack_def sleep_def)

lemma all_acked_loop:
  assumes "0 \<le> si"
  shows "pos s < length buf \<Longrightarrow>
     fst (transmit_loop buf si (all_acked n) s) = None
     \<and> pos (snd (transmit_loop buf si (all_acked n) s)) = (pos s + n * chunk_size) mod length buf
     \<and> wire (snd (transmit_loop buf si (all_acked n) s)) =
         wire s @ map (\<lambda>k. segment_at buf ((pos s + k * chunk_size) mod length buf)) [0..<n]"
proof (induction n arbitrary: s)
  case 0
  then show ?case by (simp add: all_acked_def)
next
  case (Suc n)
  let ?ev = "\<lparr>send_res = SendOk, recv_res = Received ''ACK''\<rparr>"
  let ?s1 = "s\<lparr>wire := wire s @ [segment_at buf (pos s)],
                 packet_count := packet_count s + 1,
                 total_bytes := total_bytes s + int (length (segment_at buf (pos s))),
                 pos := (pos s + chunk_size) mod length buf,
                 ack_count := ack_count s + 1\<rparr>"
  have seg: "segment_at buf (pos s) \<noteq> []"
    using Suc.prems by (simp add: segment_at_def chunk_size_def)
  have step: "transmit_loop buf si (all_acked (Suc n)) s = transmit_loop buf si (all_acked n) ?s1"
    using transmit_pass_acked [OF seg assms] by (simp add: all_acked_def)
  have "buf \<noteq> []" using Suc.prems by (cases buf) simp_all
  then have p1: "pos ?s1 < length buf" by simp
  have w1: "wire ?s1 = wire s @ [segment_at buf (pos s)]" by simp
  have pp: "pos ?s1 = (pos s + chunk_size) mod length buf" by simp
  note ih = Suc.IH [OF p1]
  have shift: "\<And>k. (pos ?s1 + k * chunk_size) mod length buf
                   = (pos s + Suc k * chunk_size) mod length buf"
  proof -
    fix k
    have "(pos ?s1 + k * chunk_size) mod length buf
          = ((pos s + chunk_size) mod length buf + k * chunk_size) mod length buf"
      by simp
    also have "\<dots> = ((pos s + chunk_size) + k * chunk_size) mod length buf"
      by (rule mod_add_left_eq)
    also have "\<dots> = (pos s + Suc k * chunk_size) mod length buf"
      by (simp add: ac_simps)
    finally show "(pos ?s1 + k * chunk_size) mod length buf
                   = (pos s + Suc k * chunk_size) mod length buf" .
  qed
  have upt: "map (\<lambda>k. segment_at buf ((pos s + k * chunk_size) mod length buf)) [0..<Suc n]
    = segment_at buf (pos s)
      # map (\<lambda>k. segment_at buf ((pos s + Suc k * chunk_size) mod length buf)) [0..<n]"
    using Suc.prems by (simp only: upt_conv_Cons [of 0 "Suc n"] zero_less_Suc)
      (simp add: map_Suc_upt [symmetric] del: upt_Suc)
  show ?case
    unfolding step using ih shift upt w1 by simp
qed

section \<open>The sender at the end of the buffer\<close>

lemma length_sample_buffer: "length sample_buffer = 4096"
  by (simp add: sample_buffer_def)

lemma boundary_segment:
  assumes "length buf = 4096" and "0 \<le> si"
  shows "wire (snd (transmit_loop buf si (all_acked 103) tx_init)) ! 102 = drop 4080 buf"
    and "pos (snd (transmit_loop buf si (all_acked 103) tx_init)) = 24"
    and "length (wire (snd (transmit_loop buf si (all_acked 103) tx_init))) = 103"
proof -
  have p0: "pos tx_init < length buf" using assms(1) by (simp add: tx_init_def)
  note l = all_acked_loop [OF assms(2) p0, of 103]
  have w: "wire (snd (transmit_loop buf si (all_acked 103) tx_init)) =
      map (\<lambda>k. segment_at buf ((k * chunk_size) mod length buf)) [0..<103]"
    using l by (simp add: tx_init_def)
  show "length (wire (snd (transmit_loop buf si (all_acked 103) tx_init))) = 103"
    unfolding w by simp
  have "wire (snd (transmit_loop buf si (all_acked 103) tx_init)) ! 102
        = segment_at buf ((102 * chunk_size) mod length buf)"
    unfolding w by (simp del: upt_Suc)
  also have "\<dots> = take 40 (drop 4080 buf)"
    using assms(1) by (simp add: segment_at_def chunk_size_def)
  also have "\<dots> = drop 4080 buf"
    using assms(1) by simp
  finally show "wire (snd (transmit_loop buf si (all_acked 103) tx_init)) ! 102 = drop 4080 buf" .
  show "pos (snd (transmit_loop buf si (all_acked 103) tx_init)) = 24"
    using l assms(1) by (simp add: tx_init_def chunk_size_def)
qed

lemma sample_tail: "drop 4080 sample_buffer = map char_of [240..<256::nat]"
proof -
  have "drop 4080 sample_buffer = map (\<lambda>i. char_of (i mod 256)) [4080..<4096]"
    by (simp add: sample_buffer_def drop_map)
  also have "\<dots> = map char_of [240..<256::nat]"
    by (simp add: upt_rec_numeral)
  finally show ?thesis .
qed

section \<open>What the sender returns and prints\<close>

lemma sender_closes_once:
  assumes "returned (transmit_data env buf rate n d) = Inr r"
  shows "close_calls (client_sock (transmit_data env buf rate n d)) = 1
     \<and> \<not> connected (client_sock (transmit_data env buf rate n d))"
proof -
  obtain sk w where o: "set_client_options (quickack_defined env) new_socket n d = Inr (sk, w)"
    and k: "close_calls sk = close_calls new_socket"
    using set_client_options_returns by blast
  from transmit_data_returned [OF assms] obtain si where
    c: "connect_ok env" and si: "sleep_interval rate = Inr si" by blast
  obtain exc s where l: "transmit_loop buf si (passes env) tx_init = (exc, s)"
    by (cases "transmit_loop buf si (passes env) tx_init")
  show ?thesis
    using k by (simp add: transmit_data_runs [OF c si l o] close_sock_def new_socket_def)
qed

lemma sender_runs_when_connected:
  assumes "connect_ok env" and "rate \<noteq> 0"
  shows "\<exists>r. returned (transmit_data env buf rate n d) = Inr r"
proof -
  obtain sk w where o: "set_client_options (quickack_defined env) new_socket n d = Inr (sk, w)"
    using set_client_options_returns by blast
  note si = sleep_interval_nonzero [OF assms(2)]
  obtain exc s where
    l: "transmit_loop buf (real chunk_size / real_of_int rate) (passes env) tx_init = (exc, s)"
    by (cases "transmit_loop buf (real chunk_size / real_of_int rate) (passes env) tx_init")
  show ?thesis by (simp add: transmit_data_runs [OF assms(1) si l o])
qed

lemma transmit_data_summary:
  assumes "returned (transmit_data env buf rate n d) = Inr r"
  shows "filter is_summary (printed (transmit_data env buf rate n d)) = [Transfer_finished r]
     \<and> bytes r = int (sum_list (map length (written (transmit_data env buf rate n d))))
     \<and> time r = t_end env - t_start env"
proof -
  obtain sk w where o: "set_client_options (quickack_defined env) new_socket n d = Inr (sk, w)"
    and w: "w = [] \<or> w = [Quickack_unsupported]"
    using set_client_options_returns by blast
  from transmit_data_returned [OF assms] obtain si where
    c: "connect_ok env" and si: "sleep_interval rate = Inr si" by blast
  obtain exc s where l: "transmit_loop buf si (passes env) tx_init = (exc, s)"
    by (cases "transmit_loop buf si (passes env) tx_init")
  note run = transmit_data_runs [OF c si l o]
  have r: "r = finalize s (t_end env - t_start env)"
    using assms run by simp
  have "tallied (snd (transmit_loop buf si (passes env) tx_init))"
    by (rule transmit_loop_tallied [OF tx_init_invariants(3)])
  then have t: "total_bytes s = int (sum_list (map length (wire s)))"
    using l by (simp add: tallied_def)
  have f: "filter is_summary (printed (transmit_data env buf rate n d)) = [Transfer_finished r]"
    using w by (cases exc) (auto simp: run r)
  have b: "bytes r = int (sum_list (map length (written (transmit_data env buf rate n d))))"
    using t by (simp add: run r finalize_def)
  have "time r = t_end env - t_start env" by (simp add: r finalize_def)
  with f b show ?thesis by simp
qed

section \<open>The receiver\<close>

lemma receive_pass_chunk:
  assumes "packet \<noteq> []" and "read_res ev = Received packet" and "ack_res ev = SendOk"
  shows "receive_pass ev s =
     Continue (s\<lparr>total_data := total_data s + int (length packet),
                 packet_num := packet_num s + 1,
                 max_size := max (max_size s) (int (length packet)),
                 calls := calls s @ [Recv (Received packet), SendAll ''ACK'' SendOk]\<rparr>)"
  using assms by (simp add: receive_pass_def Let_def max_def)

lemma receive_pass_eof:
  assumes "read_res ev = Received []"
  shows "receive_pass ev s = Break (s\<lparr>calls := calls s @ [Recv (Received [])]\<rparr>)"
  using assms by (simp add: receive_pass_def)

lemma receive_pass_read_error:
  assumes "read_res ev = RecvRaises e"
  shows "receive_pass ev s = Raise e (s\<lparr>calls := calls s @ [Recv (RecvRaises e)]\<rparr>)"
  using assms by (simp add: receive_pass_def)

lemma process_loop_read_error:
  assumes "\<forall>x\<in>set pre. chunk_ok x" and "read_res ev = RecvRaises e"
  shows "\<exists>s'. process_loop (pre @ ev # post) s = Some (Some e, s')"
  using assms(1)
proof (induction pre arbitrary: s)
  case Nil
  show ?case using assms(2) by (simp add: receive_pass_read_error)
next
  case (Cons x pre)
  from Cons.prems obtain p where p: "read_res x = Received p" "p \<noteq> []" "ack_res x = SendOk"
    by (auto simp: chunk_ok_def split: recv_result.splits)
  from Cons.prems have "\<forall>x\<in>set pre. chunk_ok x" by simp
  from Cons.IH [OF this] show ?case
    by (simp add: receive_pass_chunk [OF p(2) p(1) p(3)])
qed

lemma receive_pass_trace:
  "receive_pass ev s = Continue s' \<Longrightarrow>
     \<exists>p. p \<noteq> [] \<and> calls s' = calls s @ [Recv (Received p), SendAll ''ACK'' SendOk]"
  "receive_pass ev s = Break s' \<Longrightarrow> calls s' = calls s @ [Recv (Received [])]"
  "receive_pass ev s = Raise e s' \<Longrightarrow>
     (calls s' = calls s @ [Recv (RecvRaises e)]) \<or>
     (\<exists>p. p \<noteq> [] \<and> calls s' = calls s @ [Recv (Received p), SendAll ''ACK'' (SendRaises e)])"
  by (auto simp: receive_pass_def Let_def split: recv_result.splits send_result.splits if_splits)

lemma process_loop_alternating:
  "process_loop evs s = Some (exc, s') \<Longrightarrow> \<exists>tr. calls s' = calls s @ tr \<and> alternating tr"
proof (induction evs arbitrary: s)
  case Nil
  then show ?case by simp
next
  case (Cons ev evs)
  show ?case
  proof (cases "receive_pass ev s")
    case (Continue s1)
    with Cons.prems have "process_loop evs s1 = Some (exc, s')" by simp
    from Cons.IH [OF this] obtain tr where tr: "calls s' = calls s1 @ tr" "alternating tr"
      by blast
    from receive_pass_trace(1) [OF Continue] obtain p where
      p: "p \<noteq> []" "calls s1 = calls s @ [Recv (Received p), SendAll ''ACK'' SendOk]"
      by blast
    have "calls s' = calls s @ (Recv (Received p) # SendAll ''ACK'' SendOk # tr)"
      using tr(1) p(2) by simp
    moreover have "alternating (Recv (Received p) # SendAll ''ACK'' SendOk # tr)"
      using p(1) tr(2) by simp
    ultimately show ?thesis by blast
  next
    case (Break s1)
    with Cons.prems have "s' = s1" by simp
    with receive_pass_trace(2) [OF Break] show ?thesis by simp
  next
    case (Raise e s1)
    with Cons.prems have eq: "s' = s1" by simp
    from receive_pass_trace(3) [OF Raise] show ?thesis
    proof
      assume "calls s1 = calls s @ [Recv (RecvRaises e)]"
      with eq show ?thesis by simp
    next
      assume "\<exists>p. p \<noteq> [] \<and> calls s1 = calls s @ [Recv (Received p), SendAll ''ACK'' (SendRaises e)]"
      then obtain p where "p \<noteq> []"
        "calls s1 = calls s @ [Recv (Received p), SendAll ''ACK'' (SendRaises e)]" by blast
      with eq show ?thesis by simp
    qed
  qed
qed

lemma launch_server_session:
  assumes "bind_ok env"
    and "adjust_socket_options (srv_quickack_defined env) new_socket n d = Inr (sk, w)"
    and "process_client (reads env) (session_start env) (session_stop env) = Some ses"
  shows "launch_server env n d =
     Some \<lparr>srv_raised = None,
           srv_socket = close_sock sk,
           accepted = Some (close_sock (new_socket\<lparr>connected := True\<rparr>)),
           srv_printed = (w @ [Server_started, Incoming_connection]) @ report ses @
             (case raised ses of None \<Rightarrow> [] | Some ex \<Rightarrow> [Error_occurred ex]),
           srv_trace = trace ses\<rparr>"
  using assms by (simp add: launch_server_def Let_def)

lemma launch_server_returned:
  assumes "launch_server env n d = Some out" and "bind_ok env"
  shows "\<exists>sk w ses. adjust_socket_options (srv_quickack_defined env) new_socket n d = Inr (sk, w)
     \<and> close_calls sk = 0
     \<and> (w = [] \<or> w = [Quickack_not_supported])
     \<and> process_client (reads env) (session_start env) (session_stop env) = Some ses
     \<and> out = \<lparr>srv_raised = None,
           srv_socket = close_sock sk,
           accepted = Some (close_sock (new_socket\<lparr>connected := True\<rparr>)),
           srv_printed = (w @ [Server_started, Incoming_connection]) @ report ses @
             (case raised ses of None \<Rightarrow> [] | Some ex \<Rightarrow> [Error_occurred ex]),
           srv_trace = trace ses\<rparr>"
proof -
  obtain sk w where o: "adjust_socket_options (srv_quickack_defined env) new_socket n d = Inr (sk, w)"
    and k: "close_calls sk = close_calls new_socket" and nr: "w = [] \<or> w = [Quickack_not_supported]"
    using adjust_socket_options_returns by blast
  obtain ses where
    ses: "process_client (reads env) (session_start env) (session_stop env) = Some ses"
    using assms o
    by (cases "process_client (reads env) (session_start env) (session_stop env)")
      (auto simp: launch_server_def Let_def)
  have "out = \<lparr>srv_raised = None,
           srv_socket = close_sock sk,
           accepted = Some (close_sock (new_socket\<lparr>connected := True\<rparr>)),
           srv_printed = (w @ [Server_started, Incoming_connection]) @ report ses @
             (case raised ses of None \<Rightarrow> [] | Some ex \<Rightarrow> [Error_occurred ex]),
           srv_trace = trace ses\<rparr>"
    using assms(1) launch_server_session [OF assms(2) o ses] by simp
  with o k nr ses show ?thesis by (simp add: new_socket_def)
qed

lemma receiver_closes_both:
  assumes "launch_server env n d = Some out" and "bind_ok env"
  shows "close_calls (srv_socket out) = 1
     \<and> map_option close_calls (accepted out) = Some 1"
proof -
  from launch_server_returned [OF assms] show ?thesis
    by (auto simp: close_sock_def new_socket_def)
qed

lemma read_bytes_append: "read_bytes (xs @ ys) = read_bytes xs + read_bytes ys"
  by (induction xs rule: read_bytes.induct) simp_all

lemma receive_pass_tally:
  "total_data s = read_bytes (calls s) \<Longrightarrow>
     total_data (flow_state (receive_pass ev s)) = read_bytes (calls (flow_state (receive_pass ev s)))"
  by (auto simp: receive_pass_def Let_def read_bytes_append
      split: recv_result.splits send_result.splits)

lemma process_loop_tally:
  "process_loop evs s = Some (exc, s') \<Longrightarrow> total_data s = read_bytes (calls s) \<Longrightarrow>
     total_data s' = read_bytes (calls s')"
proof (induction evs arbitrary: s)
  case Nil
  then show ?case by simp
next
  case (Cons ev evs)
  from Cons.prems(2) have
    "total_data (flow_state (receive_pass ev s)) = read_bytes (calls (flow_state (receive_pass ev s)))"
    by (rule receive_pass_tally)
  with Cons.IH Cons.prems(1) show ?case
    by (cases "receive_pass ev s") auto
qed

lemma process_client_report:
  assumes "process_client evs t0 t1 = Some ses"
  shows "(raised ses \<noteq> None \<and> report ses = []) \<or>
     (raised ses = None \<and> (\<exists>s. total_data s = read_bytes (trace ses)
        \<and> report ses = [Session_ended (rx_report s (t1 - t0))]))"
proof (cases "process_loop evs rx_init")
  case None
  with assms show ?thesis by (simp add: process_client_def)
next
  case (Some res)
  obtain exc s where res: "res = (exc, s)" by (cases res)
  have t: "total_data s = read_bytes (calls s)"
    using process_loop_tally [of evs rx_init exc s] Some res by (simp add: rx_init_def)
  show ?thesis
  proof (cases exc)
    case None
    with assms Some res t show ?thesis by (auto simp: process_client_def)
  next
    case (Some e)
    with assms \<open>process_loop evs rx_init = Some res\<close> res show ?thesis
      by (auto simp: process_client_def)
  qed
qed

lemma launch_server_report:
  assumes "launch_server env n d = Some out" and "Session_ended st \<in> set (srv_printed out)"
  shows "filter is_report (srv_printed out) = [Session_ended st]
     \<and> (\<exists>s. st = rx_report s (session_stop env - session_start env)
           \<and> total_data s = read_bytes (srv_trace out))"
proof -
  obtain sk w where o: "adjust_socket_options (srv_quickack_defined env) new_socket n d = Inr (sk, w)"
    and w: "w = [] \<or> w = [Quickack_not_supported]"
    using adjust_socket_options_returns by blast
  have b: "bind_ok env"
    using assms o w by (auto simp: launch_server_def split: if_splits)
  obtain ses where
    ses: "process_client (reads env) (session_start env) (session_stop env) = Some ses"
    using assms(1) o b
    by (cases "process_client (reads env) (session_start env) (session_stop env)")
      (auto simp: launch_server_def Let_def)
  have out: "out = \<lparr>srv_raised = None,
           srv_socket = close_sock sk,
           accepted = Some (close_sock (new_socket\<lparr>connected := True\<rparr>)),
           srv_printed = (w @ [Server_started, Incoming_connection]) @ report ses @
             (case raised ses of None \<Rightarrow> [] | Some ex \<Rightarrow> [Error_occurred ex]),
           srv_trace = trace ses\<rparr>"
    using assms(1) launch_server_session [OF b o ses] by simp
  from process_client_report [OF ses] show ?thesis
  proof
    assume "raised ses \<noteq> None \<and> report ses = []"
    with assms(2) w show ?thesis by (auto simp: out)
  next
    assume "raised ses = None \<and> (\<exists>s. total_data s = read_bytes (trace ses)
        \<and> report ses = [Session_ended (rx_report s (session_stop env - session_start env))])"
    then obtain s where n: "raised ses = None" and t: "total_data s = read_bytes (trace ses)"
      and rp: "report ses = [Session_ended (rx_report s (session_stop env - session_start env))]"
      by blast
    have st: "st = rx_report s (session_stop env - session_start env)"
      using assms(2) w n rp by (auto simp: out)
    have "filter is_report (srv_printed out) = [Session_ended st]"
      using w n rp st by (auto simp: out)
    with st t show ?thesis by (auto simp: out)
  qed
qed

section \<open>C1: sent, acknowledged and lost chunks\<close>

text \<open>
  C1, as the code has it. At the end of every trial the acknowledged and the lost chunks
  together are at most the sent ones, and they are exactly the sent ones when every wait
  of the trial ended with the token \<open>b'ACK'\<close> or with a timeout.
\<close>

theorem sender_accounting:
  "ack_count (snd (transmit_loop buf si evs tx_init))
     + lost_count (snd (transmit_loop buf si evs tx_init))
     \<le> packet_count (snd (transmit_loop buf si evs tx_init))
   \<and> ((\<forall>ev\<in>set evs. answered ev) \<longrightarrow>
        packet_count (snd (transmit_loop buf si evs tx_init))
        = ack_count (snd (transmit_loop buf si evs tx_init))
          + lost_count (snd (transmit_loop buf si evs tx_init)))"
  using transmit_loop_accounted [OF tx_init_invariants(1), of buf si evs]
    transmit_loop_balanced [OF tx_init_invariants(2), of evs buf si]
  by (simp add: accounted_def balanced_def)

theorem sender_accounting_witness:
  "answered \<lparr>send_res = SendOk, recv_res = Received ''ACK''\<rparr>
   \<and> answered \<lparr>send_res = SendOk, recv_res = RecvRaises SocketTimeout\<rparr>
   \<and> packet_count (snd (transmit_loop ''payload'' 1
        [\<lparr>send_res = SendOk, recv_res = Received ''ACK''\<rparr>,
         \<lparr>send_res = SendOk, recv_res = RecvRaises SocketTimeout\<rparr>] tx_init)) = 2
   \<and> ack_count (snd (transmit_loop ''payload'' 1
        [\<lparr>send_res = SendOk, recv_res = Received ''ACK''\<rparr>,
         \<lparr>send_res = SendOk, recv_res = RecvRaises SocketTimeout\<rparr>] tx_init))
      + lost_count (snd (transmit_loop ''payload'' 1
        [\<lparr>send_res = SendOk, recv_res = Received ''ACK''\<rparr>,
         \<lparr>send_res = SendOk, recv_res = RecvRaises SocketTimeout\<rparr>] tx_init)) = 2"
  using sender_accounting [of "''payload''" 1
      "[\<lparr>send_res = SendOk, recv_res = Received ''ACK''\<rparr>,
        \<lparr>send_res = SendOk, recv_res = RecvRaises SocketTimeout\<rparr>]"]
  by (simp add: answered_def transmit_pass_def segment_at_def chunk_size_def wait_ack_def
      sleep_def tx_init_def Let_def)

text \<open>
  The equality fails in general: a wait that returns something other than \<open>b'ACK'\<close>
  (here the empty read of a closed stream) counts the chunk as sent and neither as
  acknowledged nor as lost.
\<close>

theorem unanswered_chunk_counterexample:
  "packet_count (snd (transmit_loop ''payload'' 1
       [\<lparr>send_res = SendOk, recv_res = Received ''''\<rparr>] tx_init))
   \<noteq> ack_count (snd (transmit_loop ''payload'' 1
       [\<lparr>send_res = SendOk, recv_res = Received ''''\<rparr>] tx_init))
     + lost_count (snd (transmit_loop ''payload'' 1
       [\<lparr>send_res = SendOk, recv_res = Received ''''\<rparr>] tx_init))"
  by (simp add: transmit_pass_def segment_at_def chunk_size_def wait_ack_def sleep_def
      tx_init_def Let_def)

section \<open>C2: the chunk at the end of the buffer\<close>

text \<open>
  C2. With a buffer of 4096 bytes the 103rd chunk starts at offset 4080. The code writes
  the 16 bytes \<open>[4080:4096]\<close> there and nothing of \<open>[0:24]\<close>: the slice is cut at the
  buffer's end, so the chunk is not 40 bytes long and does not wrap.
\<close>

theorem boundary_chunk_truncated:
  "written (transmit_data \<lparr>quickack_defined = True, connect_ok = True,
      passes = all_acked 103, t_start = 0, t_end = 103\<rparr> sample_buffer 40 True True) ! 102
     = map char_of [240..<256::nat]
   \<and> length (written (transmit_data \<lparr>quickack_defined = True, connect_ok = True,
      passes = all_acked 103, t_start = 0, t_end = 103\<rparr> sample_buffer 40 True True) ! 102)
     = 16"
proof -
  let ?env = "\<lparr>quickack_defined = True, connect_ok = True,
      passes = all_acked 103, t_start = 0, t_end = 103\<rparr>"
  have si: "sleep_interval 40 = Inr 1"
    by (simp add: sleep_interval_def py_truediv_def chunk_size_def)
  have o: "set_client_options (quickack_defined ?env) new_socket True True = Inr (new_socket, [])"
    by (simp add: set_client_options_def)
  obtain exc s where l: "transmit_loop sample_buffer 1 (passes ?env) tx_init = (exc, s)"
    by (cases "transmit_loop sample_buffer 1 (passes ?env) tx_init")
  have c: "connect_ok ?env" by simp
  have w: "written (transmit_data ?env sample_buffer 40 True True) = wire s"
    by (simp add: transmit_data_runs [OF c si l o])
  have s: "s = snd (transmit_loop sample_buffer 1 (all_acked 103) tx_init)"
    using l by simp
  have "wire s ! 102 = drop 4080 sample_buffer"
    unfolding s by (rule boundary_segment(1) [OF length_sample_buffer]) simp
  then have "wire s ! 102 = map char_of [240..<256::nat]"
    by (simp only: sample_tail)
  then show ?thesis unfolding w by simp
qed

section \<open>C3: a read that fails in the middle of a session\<close>

text \<open>
  C3, as the code has it. When a read raises after any number of acknowledged packets,
  the session returns, the error is printed and not raised again, and the accepted
  connection and the listening socket are each closed once. Nothing else is printed after
  the start-up lines: the statistics are computed only when the loop ends by an empty read.
\<close>

theorem read_error_session:
  assumes "bind_ok env" and "reads env = pre @ ev # post"
    and "\<forall>x\<in>set pre. chunk_ok x" and "read_res ev = RecvRaises e"
  shows "\<exists>out. launch_server env n d = Some out
     \<and> srv_raised out = None
     \<and> filter (\<lambda>l. l \<noteq> Quickack_not_supported) (srv_printed out)
         = [Server_started, Incoming_connection, Error_occurred e]
     \<and> close_calls (srv_socket out) = 1
     \<and> map_option close_calls (accepted out) = Some 1"
proof -
  obtain sk w where o: "adjust_socket_options (srv_quickack_defined env) new_socket n d = Inr (sk, w)"
    and k: "close_calls sk = close_calls new_socket"
    and w: "w = [] \<or> w = [Quickack_not_supported]"
    using adjust_socket_options_returns by blast
  obtain s' where l: "process_loop (reads env) rx_init = Some (Some e, s')"
    using process_loop_read_error [OF assms(3) assms(4)] assms(2) by metis
  have ses: "process_client (reads env) (session_start env) (session_stop env)
      = Some \<lparr>raised = Some e, report = [], trace = calls s'\<rparr>"
    using l by (simp add: process_client_def)
  note out = launch_server_session [OF assms(1) o ses]
  show ?thesis
    using w k by (auto simp: out close_sock_def new_socket_def)
qed

theorem read_error_session_witness:
  "bind_ok \<lparr>srv_quickack_defined = True, bind_ok = True,
      reads = [\<lparr>read_res = Received ''abc'', ack_res = SendOk\<rparr>,
               \<lparr>read_res = RecvRaises ConnectionError, ack_res = SendOk\<rparr>],
      session_start = 5, session_stop = 7\<rparr>
   \<and> chunk_ok \<lparr>read_res = Received ''abc'', ack_res = SendOk\<rparr>
   \<and> read_res \<lparr>read_res = RecvRaises ConnectionError, ack_res = SendOk\<rparr>
       = RecvRaises ConnectionError
   \<and> launch_server \<lparr>srv_quickack_defined = True, bind_ok = True,
      reads = [\<lparr>read_res = Received ''abc'', ack_res = SendOk\<rparr>,
               \<lparr>read_res = RecvRaises ConnectionError, ack_res = SendOk\<rparr>],
      session_start = 5, session_stop = 7\<rparr> True False
     = Some \<lparr>srv_raised = None,
         srv_socket = \<lparr>nodelay = False, quickack = True, connected = False, close_calls = 1\<rparr>,
         accepted = Some \<lparr>nodelay = False, quickack = False, connected = False,
                          close_calls = 1\<rparr>,
         srv_printed = [Server_started, Incoming_connection, Error_occurred ConnectionError],
         srv_trace = [Recv (Received ''abc''), SendAll ''ACK'' SendOk,
                      Recv (RecvRaises ConnectionError)]\<rparr>"
  using read_error_session [of "\<lparr>srv_quickack_defined = True, bind_ok = True,
      reads = [\<lparr>read_res = Received ''abc'', ack_res = SendOk\<rparr>,
               \<lparr>read_res = RecvRaises ConnectionError, ack_res = SendOk\<rparr>],
      session_start = 5, session_stop = 7\<rparr>"
      "[\<lparr>read_res = Received ''abc'', ack_res = SendOk\<rparr>]"
      "\<lparr>read_res = RecvRaises ConnectionError, ack_res = SendOk\<rparr>" "[]" ConnectionError
      True False]
  by (simp add: chunk_ok_def launch_server_def adjust_socket_options_def
      setsockopt_quickack_def new_socket_def close_sock_def process_client_def
      receive_pass_def rx_init_def Let_def)

text \<open>
  A session whose second read fails prints the error and no statistics.
\<close>

theorem read_error_no_report_counterexample:
  "map_option srv_printed (launch_server \<lparr>srv_quickack_defined = True, bind_ok = True,
      reads = [\<lparr>read_res = Received ''abc'', ack_res = SendOk\<rparr>,
               \<lparr>read_res = RecvRaises ConnectionError, ack_res = SendOk\<rparr>],
      session_start = 5, session_stop = 7\<rparr> True True)
   = Some [Server_started, Incoming_connection, Error_occurred ConnectionError]"
  by (simp add: launch_server_def adjust_socket_options_def new_socket_def
      process_client_def receive_pass_def rx_init_def Let_def)

section \<open>C4: closing the connection\<close>

text \<open>
  C4. The sender closes its socket once whenever \<open>transmit_data\<close> returns
  (\<open>sender_closes_once\<close>), and the receiver closes both of its sockets once whenever
  the session returns (\<open>receiver_closes_both\<close>). With \<open>rate = 0\<close> the sender raises
  after \<open>connect\<close> and before the \<open>try\<close>: the socket stays connected and \<open>close\<close> is
  never called.
\<close>

theorem zero_rate_socket_left_open:
  "returned (transmit_data \<lparr>quickack_defined = True, connect_ok = True,
      passes = all_acked 3, t_start = 0, t_end = 3\<rparr> ''payload'' 0 True True)
     = Inl ZeroDivisionError
   \<and> connected (client_sock (transmit_data \<lparr>quickack_defined = True, connect_ok = True,
      passes = all_acked 3, t_start = 0, t_end = 3\<rparr> ''payload'' 0 True True))
   \<and> close_calls (client_sock (transmit_data \<lparr>quickack_defined = True, connect_ok = True,
      passes = all_acked 3, t_start = 0, t_end = 3\<rparr> ''payload'' 0 True True)) = 0"
  by (simp add: transmit_data_def set_client_options_def new_socket_def sleep_interval_def
      py_truediv_def chunk_size_def)

section \<open>C5: a timeout of the acknowledgment wait\<close>

text \<open>
  C5. A timeout of the wait is handled inside the pass: it adds one to \<open>lost_count\<close>,
  and with a valid pacing interval the loop goes on with the next pass from that state.
  Whatever the passes are, a timeout leaves the loop as an exception only when
  \<open>sendall\<close> raised it, never when the wait did.
\<close>

theorem ack_timeout_recoverable:
  "wait_ack (RecvRaises SocketTimeout) s = Inr (s\<lparr>lost_count := lost_count s + 1\<rparr>)
   \<and> (segment_at buf (pos s) \<noteq> [] \<longrightarrow> 0 \<le> si \<longrightarrow> send_res ev = SendOk \<longrightarrow>
        recv_res ev = RecvRaises SocketTimeout \<longrightarrow>
        transmit_loop buf si (ev # evs) s =
          transmit_loop buf si evs
            (s\<lparr>wire := wire s @ [segment_at buf (pos s)],
               packet_count := packet_count s + 1,
               total_bytes := total_bytes s + int (length (segment_at buf (pos s))),
               pos := (pos s + chunk_size) mod length buf,
               lost_count := lost_count s + 1\<rparr>))
   \<and> ((\<forall>e\<in>set evs. send_res e \<noteq> SendRaises SocketTimeout) \<longrightarrow>
        fst (transmit_loop buf si evs s) \<noteq> Some SocketTimeout)"
proof -
  have a: "wait_ack (RecvRaises SocketTimeout) s = Inr (s\<lparr>lost_count := lost_count s + 1\<rparr>)"
    by (simp add: wait_ack_def)
  have b: "segment_at buf (pos s) \<noteq> [] \<Longrightarrow> 0 \<le> si \<Longrightarrow> send_res ev = SendOk \<Longrightarrow>
        recv_res ev = RecvRaises SocketTimeout \<Longrightarrow>
        transmit_loop buf si (ev # evs) s =
          transmit_loop buf si evs
            (s\<lparr>wire := wire s @ [segment_at buf (pos s)],
               packet_count := packet_count s + 1,
               total_bytes := total_bytes s + int (length (segment_at buf (pos s))),
               pos := (pos s + chunk_size) mod length buf,
               lost_count := lost_count s + 1\<rparr>)"
    by (simp add: transmit_pass_timeout)
  show ?thesis
    using a b transmit_loop_no_timeout [of evs buf si s] by blast
qed

theorem ack_timeout_recoverable_witness:
  "segment_at ''payload'' (pos tx_init) \<noteq> [] \<and> (0::real) \<le> 1
   \<and> send_res \<lparr>send_res = SendOk, recv_res = RecvRaises SocketTimeout\<rparr> = SendOk
   \<and> recv_res \<lparr>send_res = SendOk, recv_res = RecvRaises SocketTimeout\<rparr>
       = RecvRaises SocketTimeout
   \<and> send_res \<lparr>send_res = SendOk, recv_res = Received ''ACK''\<rparr>
       \<noteq> SendRaises SocketTimeout
   \<and> transmit_loop ''payload'' 1
        [\<lparr>send_res = SendOk, recv_res = RecvRaises SocketTimeout\<rparr>,
         \<lparr>send_res = SendOk, recv_res = Received ''ACK''\<rparr>] tx_init
       = (None, \<lparr>total_bytes = 9, packet_count = 2, ack_count = 1, lost_count = 1,
                  pos = 3, wire = [''payload'', ''ad'']\<rparr>)
   \<and> fst (transmit_loop ''payload'' 1
        [\<lparr>send_res = SendOk, recv_res = Received ''ACK''\<rparr>] tx_init) \<noteq> Some SocketTimeout"
  using ack_timeout_recoverable [of tx_init "''payload''" 1
      "\<lparr>send_res = SendOk, recv_res = RecvRaises SocketTimeout\<rparr>"
      "[\<lparr>send_res = SendOk, recv_res = Received ''ACK''\<rparr>]"]
  by (simp add: transmit_pass_def segment_at_def chunk_size_def wait_ack_def sleep_def
      tx_init_def Let_def)

section \<open>C6: a platform without quick acknowledgment\<close>

text \<open>
  C6. When delayed acknowledgment is switched off on a platform that does not define
  \<open>TCP_QUICKACK\<close>, the option step of the sender and of the receiver returns normally
  with a warning and leaves the acknowledgment option of the socket as it was; the sender
  goes on to connect and the receiver to listen, and neither ends with \<open>AttributeError\<close>.
\<close>

theorem quickack_unsupported_nonfatal:
  assumes "\<not> use_delayed_ack" and "\<not> quickack_defined env" and "\<not> srv_quickack_defined senv"
  shows "set_client_options (quickack_defined env) s use_nagle use_delayed_ack
       = Inr (if use_nagle then s else s\<lparr>nodelay := True\<rparr>, [Quickack_unsupported])
     \<and> adjust_socket_options (srv_quickack_defined senv) s use_nagle use_delayed_ack
       = Inr (if use_nagle then s else s\<lparr>nodelay := True\<rparr>, [Quickack_not_supported])
     \<and> returned (transmit_data env buf rate use_nagle use_delayed_ack) \<noteq> Inl AttributeError
     \<and> (connect_ok env \<longrightarrow>
          take 2 (printed (transmit_data env buf rate use_nagle use_delayed_ack))
            = [Quickack_unsupported, Connected_banner]
          \<and> \<not> quickack (client_sock (transmit_data env buf rate use_nagle use_delayed_ack)))
     \<and> (\<forall>out. launch_server senv use_nagle use_delayed_ack = Some out \<longrightarrow>
          srv_raised out \<noteq> Some AttributeError
          \<and> \<not> quickack (srv_socket out)
          \<and> (bind_ok senv \<longrightarrow>
                take 2 (srv_printed out) = [Quickack_not_supported, Server_started]))"
proof -
  have c: "set_client_options (quickack_defined env) s use_nagle use_delayed_ack
       = Inr (if use_nagle then s else s\<lparr>nodelay := True\<rparr>, [Quickack_unsupported])" for s
    using assms by (simp add: set_client_options_def setsockopt_quickack_def)
  have a: "adjust_socket_options (srv_quickack_defined senv) s use_nagle use_delayed_ack
       = Inr (if use_nagle then s else s\<lparr>nodelay := True\<rparr>, [Quickack_not_supported])" for s
    using assms by (simp add: adjust_socket_options_def setsockopt_quickack_def)
  have r: "returned (transmit_data env buf rate use_nagle use_delayed_ack) \<noteq> Inl AttributeError"
    by (cases "sleep_interval rate")
      (auto simp: transmit_data_def c Let_def sleep_interval_def py_truediv_def
        split: prod.splits if_splits sum.splits)
  have p: "take 2 (printed (transmit_data env buf rate use_nagle use_delayed_ack))
            = [Quickack_unsupported, Connected_banner]
          \<and> \<not> quickack (client_sock (transmit_data env buf rate use_nagle use_delayed_ack))"
    if "connect_ok env"
    using that
    by (cases "sleep_interval rate")
      (auto simp: transmit_data_def c Let_def new_socket_def close_sock_def
        split: prod.splits option.splits)
  have l: "srv_raised out \<noteq> Some AttributeError
          \<and> \<not> quickack (srv_socket out)
          \<and> (bind_ok senv \<longrightarrow>
                take 2 (srv_printed out) = [Quickack_not_supported, Server_started])"
    if "launch_server senv use_nagle use_delayed_ack = Some out" for out
    using that
    by (auto simp: launch_server_def a Let_def new_socket_def close_sock_def
        split: if_splits option.splits)
  from c a r p l show ?thesis by blast
qed

theorem quickack_unsupported_nonfatal_witness:
  "\<not> False
   \<and> \<not> quickack_defined \<lparr>quickack_defined = False, connect_ok = True, passes = [],
         t_start = 0, t_end = 1\<rparr>
   \<and> \<not> srv_quickack_defined \<lparr>srv_quickack_defined = False, bind_ok = True,
         reads = [\<lparr>read_res = Received [], ack_res = SendOk\<rparr>],
         session_start = 0, session_stop = 1\<rparr>
   \<and> printed (transmit_data \<lparr>quickack_defined = False, connect_ok = True, passes = [],
         t_start = 0, t_end = 1\<rparr> ''payload'' 40 False False)
       = [Quickack_unsupported, Connected_banner,
          Transfer_finished \<lparr>throughput = 0, goodput = 0, loss = 0, bytes = 0, packets = 0,
            acks = 0, time = 1\<rparr>]
   \<and> launch_server \<lparr>srv_quickack_defined = False, bind_ok = True,
         reads = [\<lparr>read_res = Received [], ack_res = SendOk\<rparr>],
         session_start = 0, session_stop = 1\<rparr> False False
       = Some \<lparr>srv_raised = None,
           srv_socket = \<lparr>nodelay = True, quickack = False, connected = False,
                          close_calls = 1\<rparr>,
           accepted = Some \<lparr>nodelay = False, quickack = False, connected = False,
                            close_calls = 1\<rparr>,
           srv_printed = [Quickack_not_supported, Server_started, Incoming_connection,
             Session_ended \<lparr>elapsed_time = 1, total_received = 0, packets_received = 0,
               data_rate = 0, largest_packet = 0\<rparr>],
           srv_trace = [Recv (Received [])]\<rparr>"
  using quickack_unsupported_nonfatal [of False
      "\<lparr>quickack_defined = False, connect_ok = True, passes = [], t_start = 0, t_end = 1\<rparr>"
      "\<lparr>srv_quickack_defined = False, bind_ok = True,
        reads = [\<lparr>read_res = Received [], ack_res = SendOk\<rparr>],
        session_start = 0, session_stop = 1\<rparr>" new_socket False "''payload''" 40]
  by (simp add: transmit_data_def set_client_options_def setsockopt_quickack_def
      new_socket_def close_sock_def sleep_interval_def py_truediv_def chunk_size_def
      tx_init_def finalize_def launch_server_def adjust_socket_options_def
      process_client_def receive_pass_def rx_init_def rx_report_def Let_def)

section \<open>C7: the loss ratio\<close>

text \<open>
  C7. The loss ratio of every returned result lies between 0 and 1; it is 0 when no
  chunk was sent, and 0 when no chunk was lost.
\<close>

theorem loss_ratio_bounds:
  assumes "returned (transmit_data env buf rate n d) = Inr r"
  shows "0 \<le> loss r \<and> loss r \<le> 1
     \<and> (packets r = 0 \<longrightarrow> loss r = 0)
     \<and> (\<forall>si. sleep_interval rate = Inr si \<longrightarrow>
           lost_count (snd (transmit_loop buf si (passes env) tx_init)) = 0 \<longrightarrow> loss r = 0)"
proof -
  from transmit_data_returned [OF assms] obtain si where
    si: "sleep_interval rate = Inr si" and
    r: "r = finalize (snd (transmit_loop buf si (passes env) tx_init)) (t_end env - t_start env)"
    by blast
  define s where "s = snd (transmit_loop buf si (passes env) tx_init)"
  have acc: "accounted s"
    unfolding s_def by (rule transmit_loop_accounted [OF tx_init_invariants(1)])
  have l: "loss r = (if packet_count s > 0
                     then real_of_int (lost_count s) / real_of_int (packet_count s) else 0)"
    and p: "packets r = packet_count s"
    using r by (simp_all add: finalize_def s_def)
  have lo: "0 \<le> lost_count s" and hi: "lost_count s \<le> packet_count s"
    using acc by (simp_all add: accounted_def)
  have b0: "0 \<le> loss r" using l lo by simp
  have b1: "loss r \<le> 1" using l lo hi by simp
  have z1: "packets r = 0 \<longrightarrow> loss r = 0" using l p by simp
  have z2: "lost_count s = 0 \<longrightarrow> loss r = 0" using l by simp
  have "\<forall>si'. sleep_interval rate = Inr si' \<longrightarrow>
           lost_count (snd (transmit_loop buf si' (passes env) tx_init)) = 0 \<longrightarrow> loss r = 0"
    using z2 si by (simp add: s_def)
  with b0 b1 z1 show ?thesis by blast
qed

theorem loss_ratio_bounds_witness:
  "returned (transmit_data \<lparr>quickack_defined = True, connect_ok = True,
       passes = [\<lparr>send_res = SendRaises ConnectionError, recv_res = Received ''ACK''\<rparr>],
       t_start = 5, t_end = 6\<rparr> ''payload'' 40 True True)
     = Inr \<lparr>throughput = 0, goodput = 0, loss = 0, bytes = 0, packets = 0, acks = 0, time = 1\<rparr>
   \<and> packets \<lparr>throughput = 0, goodput = 0, loss = 0, bytes = 0, packets = 0, acks = 0,
               time = 1\<rparr> = 0
   \<and> sleep_interval 40 = Inr 1
   \<and> lost_count (snd (transmit_loop ''payload'' 1
        [\<lparr>send_res = SendRaises ConnectionError, recv_res = Received ''ACK''\<rparr>] tx_init)) = 0
   \<and> loss \<lparr>throughput = 0, goodput = 0, loss = 0, bytes = 0, packets = 0, acks = 0,
            time = 1::real\<rparr> = 0"
proof -
  have h: "returned (transmit_data \<lparr>quickack_defined = True, connect_ok = True,
       passes = [\<lparr>send_res = SendRaises ConnectionError, recv_res = Received ''ACK''\<rparr>],
       t_start = 5, t_end = 6\<rparr> ''payload'' 40 True True)
     = Inr \<lparr>throughput = 0, goodput = 0, loss = 0, bytes = 0, packets = 0, acks = 0, time = 1\<rparr>"
    by (simp add: transmit_data_def set_client_options_def new_socket_def sleep_interval_def
        py_truediv_def chunk_size_def transmit_pass_def segment_at_def tx_init_def
        finalize_def Let_def)
  show ?thesis
    using h loss_ratio_bounds [OF h]
    by (simp add: sleep_interval_def py_truediv_def chunk_size_def transmit_pass_def
        segment_at_def tx_init_def)
qed

section \<open>C8: the derived metrics\<close>

text \<open>
  C8. In every result the sender returns, the throughput is the byte counter divided by
  the measured time and the goodput is the acknowledged chunks times the chunk size
  divided by the measured time, both 0 when the time is not positive; the byte counter is
  the number of bytes written, and the summary is printed once. In every report the
  receiver prints, the data rate is the received bytes divided by the session time, 0 when
  that is not positive; the received bytes are those of the reads, and the report is
  printed once.
\<close>

theorem derived_metrics:
  "(returned (transmit_data env buf rate n d) = Inr r \<longrightarrow>
       throughput r = (if 0 < time r then real_of_int (bytes r) / time r else 0)
     \<and> goodput r = (if 0 < time r then real_of_int (acks r * int chunk_size) / time r else 0)
     \<and> time r = t_end env - t_start env
     \<and> bytes r = int (sum_list (map length (written (transmit_data env buf rate n d))))
     \<and> filter is_summary (printed (transmit_data env buf rate n d)) = [Transfer_finished r])
   \<and> (launch_server senv n' d' = Some out \<longrightarrow> Session_ended st \<in> set (srv_printed out) \<longrightarrow>
       data_rate st = (if 0 < elapsed_time st
                       then real_of_int (total_received st) / elapsed_time st else 0)
     \<and> elapsed_time st = session_stop senv - session_start senv
     \<and> total_received st = read_bytes (srv_trace out)
     \<and> filter is_report (srv_printed out) = [Session_ended st])"
proof -
  have tx: "throughput r = (if 0 < time r then real_of_int (bytes r) / time r else 0)
     \<and> goodput r = (if 0 < time r then real_of_int (acks r * int chunk_size) / time r else 0)
     \<and> time r = t_end env - t_start env
     \<and> bytes r = int (sum_list (map length (written (transmit_data env buf rate n d))))
     \<and> filter is_summary (printed (transmit_data env buf rate n d)) = [Transfer_finished r]"
    if h: "returned (transmit_data env buf rate n d) = Inr r"
  proof -
    from transmit_data_returned [OF h] obtain si where
      r: "r = finalize (snd (transmit_loop buf si (passes env) tx_init)) (t_end env - t_start env)"
      by blast
    have "throughput r = (if 0 < time r then real_of_int (bytes r) / time r else 0)"
      and "goodput r = (if 0 < time r then real_of_int (acks r * int chunk_size) / time r else 0)"
      by (simp_all add: r finalize_def)
    with transmit_data_summary [OF h] show ?thesis by simp
  qed
  have rx: "data_rate st = (if 0 < elapsed_time st
                       then real_of_int (total_received st) / elapsed_time st else 0)
     \<and> elapsed_time st = session_stop senv - session_start senv
     \<and> total_received st = read_bytes (srv_trace out)
     \<and> filter is_report (srv_printed out) = [Session_ended st]"
    if h: "launch_server senv n' d' = Some out" "Session_ended st \<in> set (srv_printed out)"
  proof -
    from launch_server_report [OF h] obtain s where
      f: "filter is_report (srv_printed out) = [Session_ended st]"
      and st: "st = rx_report s (session_stop senv - session_start senv)"
      and t: "total_data s = read_bytes (srv_trace out)"
      by blast
    show ?thesis using f t by (simp add: st rx_report_def)
  qed
  from tx rx show ?thesis by blast
qed

theorem derived_metrics_witness:
  "returned (transmit_data \<lparr>quickack_defined = True, connect_ok = True,
       passes = [\<lparr>send_res = SendOk, recv_res = Received ''ACK''\<rparr>,
                 \<lparr>send_res = SendOk, recv_res = RecvRaises SocketTimeout\<rparr>],
       t_start = 5, t_end = 7\<rparr> ''payload'' 40 True True)
     = Inr \<lparr>throughput = 9 / 2, goodput = 20, loss = 1 / 2, bytes = 9, packets = 2, acks = 1,
            time = 2\<rparr>
   \<and> written (transmit_data \<lparr>quickack_defined = True, connect_ok = True,
       passes = [\<lparr>send_res = SendOk, recv_res = Received ''ACK''\<rparr>,
                 \<lparr>send_res = SendOk, recv_res = RecvRaises SocketTimeout\<rparr>],
       t_start = 5, t_end = 7\<rparr> ''payload'' 40 True True) = [''payload'', ''ad'']
   \<and> launch_server \<lparr>srv_quickack_defined = True, bind_ok = True,
       reads = [\<lparr>read_res = Received ''abc'', ack_res = SendOk\<rparr>,
                \<lparr>read_res = Received [], ack_res = SendOk\<rparr>],
       session_start = 5, session_stop = 7\<rparr> True True
     = Some \<lparr>srv_raised = None,
         srv_socket = \<lparr>nodelay = False, quickack = False, connected = False,
                        close_calls = 1\<rparr>,
         accepted = Some \<lparr>nodelay = False, quickack = False, connected = False,
                          close_calls = 1\<rparr>,
         srv_printed = [Server_started, Incoming_connection,
           Session_ended \<lparr>elapsed_time = 2, total_received = 3, packets_received = 1,
             data_rate = 3 / 2, largest_packet = 3\<rparr>],
         srv_trace = [Recv (Received ''abc''), SendAll ''ACK'' SendOk, Recv (Received [])]\<rparr>
   \<and> Session_ended \<lparr>elapsed_time = 2, total_received = 3, packets_received = 1,
         data_rate = 3 / 2, largest_packet = 3\<rparr>
       \<in> set [Server_started, Incoming_connection,
           Session_ended \<lparr>elapsed_time = 2, total_received = 3, packets_received = 1,
             data_rate = 3 / 2, largest_packet = 3\<rparr>]
   \<and> read_bytes [Recv (Received ''abc''), SendAll ''ACK'' SendOk, Recv (Received [])] = 3"
proof -
  let ?env = "\<lparr>quickack_defined = True, connect_ok = True,
       passes = [\<lparr>send_res = SendOk, recv_res = Received ''ACK''\<rparr>,
                 \<lparr>send_res = SendOk, recv_res = RecvRaises SocketTimeout\<rparr>],
       t_start = 5, t_end = 7\<rparr>"
  let ?r = "\<lparr>throughput = 9 / 2, goodput = 20, loss = 1 / 2, bytes = 9, packets = 2, acks = 1,
            time = 2::real\<rparr>"
  let ?senv = "\<lparr>srv_quickack_defined = True, bind_ok = True,
       reads = [\<lparr>read_res = Received ''abc'', ack_res = SendOk\<rparr>,
                \<lparr>read_res = Received [], ack_res = SendOk\<rparr>],
       session_start = 5, session_stop = 7\<rparr>"
  let ?st = "\<lparr>elapsed_time = 2, total_received = 3, packets_received = 1,
             data_rate = 3 / 2, largest_packet = 3\<rparr>"
  let ?out = "\<lparr>srv_raised = None,
         srv_socket = \<lparr>nodelay = False, quickack = False, connected = False,
                        close_calls = 1\<rparr>,
         accepted = Some \<lparr>nodelay = False, quickack = False, connected = False,
                          close_calls = 1\<rparr>,
         srv_printed = [Server_started, Incoming_connection, Session_ended ?st],
         srv_trace = [Recv (Received ''abc''), SendAll ''ACK'' SendOk, Recv (Received [])]\<rparr>"
  have tx: "transmit_data ?env ''payload'' 40 True True
      = \<lparr>returned = Inr ?r,
         client_sock = \<lparr>nodelay = False, quickack = False, connected = False, close_calls = 1\<rparr>,
         printed = [Connected_banner, Transfer_finished ?r],
         written = [''payload'', ''ad'']\<rparr>"
    by (simp add: transmit_data_def set_client_options_def new_socket_def close_sock_def
        sleep_interval_def py_truediv_def chunk_size_def transmit_pass_def segment_at_def
        wait_ack_def sleep_def tx_init_def finalize_def Let_def)
  have h1: "returned (transmit_data ?env ''payload'' 40 True True) = Inr ?r"
    by (simp add: tx)
  have h2: "launch_server ?senv True True = Some ?out"
    by (simp add: launch_server_def adjust_socket_options_def new_socket_def close_sock_def
        process_client_def receive_pass_def rx_init_def rx_report_def Let_def)
  have h3: "Session_ended ?st \<in> set (srv_printed ?out)" by simp
  show ?thesis
    using h1 h2 h3 tx derived_metrics [of ?env "''payload''" 40 True True ?r ?senv True True
        ?out ?st]
    by simp
qed

section \<open>C9: read and acknowledge in turn\<close>

text \<open>
  C9. A non-empty read adds one to the packet counter and its length to the byte counter,
  updates the largest size, and is followed by the write of \<open>b'ACK'\<close> before the next
  read; an empty read ends the loop with the counters unchanged and without a write. In
  the trace of every session that returns, reads and writes of \<open>b'ACK'\<close> alternate.
\<close>

theorem read_ack_alternation:
  "(packet \<noteq> [] \<longrightarrow> read_res ev1 = Received packet \<longrightarrow> ack_res ev1 = SendOk \<longrightarrow>
      process_loop (ev1 # evs) s =
        process_loop evs
          (s\<lparr>total_data := total_data s + int (length packet),
             packet_num := packet_num s + 1,
             max_size := max (max_size s) (int (length packet)),
             calls := calls s @ [Recv (Received packet), SendAll ''ACK'' SendOk]\<rparr>))
   \<and> (read_res ev2 = Received [] \<longrightarrow>
        process_loop (ev2 # evs) s = Some (None, s\<lparr>calls := calls s @ [Recv (Received [])]\<rparr>))
   \<and> (process_loop script rx_init = Some (exc, s') \<longrightarrow> alternating (calls s'))"
proof -
  have a: "packet \<noteq> [] \<Longrightarrow> read_res ev1 = Received packet \<Longrightarrow> ack_res ev1 = SendOk \<Longrightarrow>
      process_loop (ev1 # evs) s =
        process_loop evs
          (s\<lparr>total_data := total_data s + int (length packet),
             packet_num := packet_num s + 1,
             max_size := max (max_size s) (int (length packet)),
             calls := calls s @ [Recv (Received packet), SendAll ''ACK'' SendOk]\<rparr>)"
    by (simp add: receive_pass_chunk)
  have b: "read_res ev2 = Received [] \<Longrightarrow>
        process_loop (ev2 # evs) s = Some (None, s\<lparr>calls := calls s @ [Recv (Received [])]\<rparr>)"
    by (simp add: receive_pass_eof)
  have c: "process_loop script rx_init = Some (exc, s') \<Longrightarrow> alternating (calls s')"
    using process_loop_alternating [of script rx_init exc s'] by (auto simp: rx_init_def)
  from a b c show ?thesis by blast
qed

theorem read_ack_alternation_witness:
  "''abc'' \<noteq> []
   \<and> read_res \<lparr>read_res = Received ''abc'', ack_res = SendOk\<rparr> = Received ''abc''
   \<and> ack_res \<lparr>read_res = Received ''abc'', ack_res = SendOk\<rparr> = SendOk
   \<and> read_res \<lparr>read_res = Received [], ack_res = SendOk\<rparr> = Received []
   \<and> process_loop [\<lparr>read_res = Received ''abc'', ack_res = SendOk\<rparr>,
                    \<lparr>read_res = Received [], ack_res = SendOk\<rparr>] rx_init
       = Some (None, \<lparr>total_data = 3, packet_num = 1, max_size = 3,
                       calls = [Recv (Received ''abc''), SendAll ''ACK'' SendOk,
                                Recv (Received [])]\<rparr>)
   \<and> alternating [Recv (Received ''abc''), SendAll ''ACK'' SendOk, Recv (Received [])]"
  using read_ack_alternation [of "''abc''" "\<lparr>read_res = Received ''abc'', ack_res = SendOk\<rparr>"
      "[\<lparr>read_res = Received [], ack_res = SendOk\<rparr>]" rx_init
      "\<lparr>read_res = Received [], ack_res = SendOk\<rparr>"
      "[\<lparr>read_res = Received ''abc'', ack_res = SendOk\<rparr>,
        \<lparr>read_res = Received [], ack_res = SendOk\<rparr>]" None
      "\<lparr>total_data = 3, packet_num = 1, max_size = 3,
        calls = [Recv (Received ''abc''), SendAll ''ACK'' SendOk, Recv (Received [])]\<rparr>"]
  by (simp add: receive_pass_def rx_init_def Let_def)

section \<open>C10: the pacing interval and the rate\<close>



end
